theory Spec2Isabelle
  imports Complex_Main "HOL-Library.Multiset"
begin

section \<open>Data model\<close>

text \<open>
  The search engine of \<^verbatim>\<open>src/models/base.py\<close> works on Python dictionaries, integers and
  floats. A dictionary whose iteration order matters (\<^verbatim>\<open>atomRanges\<close>, a formula) is an
  association list in insertion order; a Python dictionary never holds a key twice, which is
  the predicate \<open>dict_ok\<close> below. The mass table is only ever looked up, so it is a map.
  Atom counts are Python integers (\<open>int\<close>). Masses are Python floats, idealised here as
  \<open>real\<close>: rounding, infinities and NaN are outside the model.
\<close>

type_synonym symbol = string
type_synonym formula = "(symbol \<times> int) list"
type_synonym atom_ranges = "(symbol \<times> (int \<times> int)) list"
type_synonym mass_table = "symbol \<rightharpoonup> real"

definition dict_ok :: "('k \<times> 'v) list \<Rightarrow> bool" where
  "dict_ok d = distinct (map fst d)"

text \<open>The exceptions the engine can raise: a failed dictionary lookup and a float division by zero.\<close>

datatype error = KeyError symbol | ZeroDivisionError

text \<open>\<^verbatim>\<open>d.get(k, default)\<close>\<close>

definition dict_get :: "('k \<times> 'v) list \<Rightarrow> 'k \<Rightarrow> 'v \<Rightarrow> 'v" where
  "dict_get d k dflt = (case map_of d k of None \<Rightarrow> dflt | Some v \<Rightarrow> v)"

text \<open>The dictionary appended to \<^verbatim>\<open>possible_formulas\<close> for an accepted candidate.\<close>

record candidate =
  formula :: formula
  mass :: real
  m_z :: real
  deviation :: real
  unsaturation :: real

text \<open>
  A Python generator, seen from its consumer: a finite sequence of yielded values that ends
  either normally or with an exception raised inside the generator body. The consumer's loop
  body runs between two yields, so the first failure in traversal order is the one observed.
\<close>

datatype 'a gen = Stop | Raise error | Yield 'a "'a gen"

fun yields :: "'a gen \<Rightarrow> 'a list" where
  "yields Stop = []"
| "yields (Raise e) = []"
| "yields (Yield x g) = x # yields g"

fun raised :: "'a gen \<Rightarrow> error option" where
  "raised Stop = None"
| "raised (Raise e) = Some e"
| "raised (Yield x g) = raised g"

text \<open>What \<^verbatim>\<open>print\<close> receives: its positional arguments, strings and numbers.\<close>

datatype pyval = Str string | Num real

section \<open>Mass model\<close>

text \<open>
  \<^verbatim>\<open>sum(monoisotopiqueMasses[elements] * count for elements, count in formula.items())\<close>:
  the running sum starts at 0 and takes the items in order; the first symbol without an entry
  raises \<^verbatim>\<open>KeyError\<close>.
\<close>

fun mass_sum :: "mass_table \<Rightarrow> real \<Rightarrow> formula \<Rightarrow> error + real" where
  "mass_sum monoisotopiqueMasses acc [] = Inr acc"
| "mass_sum monoisotopiqueMasses acc ((element, cnt) # items) =
     (case monoisotopiqueMasses element of
        None \<Rightarrow> Inl (KeyError element)
      | Some m \<Rightarrow> mass_sum monoisotopiqueMasses (acc + m * real_of_int cnt) items)"

definition calculate_mass :: "formula \<Rightarrow> mass_table \<Rightarrow> error + real" where
  "calculate_mass f monoisotopiqueMasses = mass_sum monoisotopiqueMasses 0 f"

definition calculate_unsaturation :: "formula \<Rightarrow> real" where
  "calculate_unsaturation f =
     (let C = dict_get f ''C'' 0;
          H = dict_get f ''H'' 0;
          N = dict_get f ''N'' 0;
          F = dict_get f ''F'' 0;
          Cl = dict_get f ''Cl'' 0;
          Br = dict_get f ''Br'' 0;
          I = dict_get f ''I'' 0;
          X = F + Cl + Br + I
      in real_of_int C - real_of_int (H + X) / 2 + real_of_int N / 2 + 1)"

section \<open>Valence checker\<close>

definition valency :: "(symbol \<times> int) list" where
  "valency = [(''C'', 4), (''H'', 1), (''N'', 3), (''O'', 2), (''S'', 2),
              (''F'', 1), (''Cl'', 7), (''Br'', 7), (''I'', 7)]"

text \<open>
  \<^verbatim>\<open>sum(valency[elements] * count for elements, count in formula.items())\<close>, with the
  \<^verbatim>\<open>KeyError\<close> of \<^verbatim>\<open>valency[elements]\<close> on a symbol outside the table.
\<close>

fun bond_sum :: "int \<Rightarrow> formula \<Rightarrow> error + int" where
  "bond_sum acc [] = Inr acc"
| "bond_sum acc ((element, cnt) # items) =
     (case map_of valency element of
        None \<Rightarrow> Inl (KeyError element)
      | Some v \<Rightarrow> bond_sum (acc + v * cnt) items)"

definition is_valid_formula :: "formula \<Rightarrow> error + bool" where
  "is_valid_formula f =
     (let totalBonds =
            4 * dict_get f ''C'' 0 +
            1 * dict_get f ''H'' 0 +
            3 * dict_get f ''N'' 0 +
            2 * dict_get f ''O'' 0 +
            2 * dict_get f ''S'' 0 +
            1 * dict_get f ''F'' 0 +
            7 * dict_get f ''Cl'' 0 +
            7 * dict_get f ''Br'' 0 +
            7 * dict_get f ''I'' 0
      in case bond_sum 0 f of
           Inl e \<Rightarrow> Inl e
         | Inr maxPossibleBonds \<Rightarrow> Inr (totalBonds \<le> maxPossibleBonds))"

section \<open>Formula enumerator\<close>

text \<open>
  \<^verbatim>\<open>itertools.product(*ranges)\<close>: the tuples of the Cartesian product, the rightmost
  position advancing fastest; the product of no ranges is the single empty tuple.
\<close>

fun itertools_product :: "'a list list \<Rightarrow> 'a list list" where
  "itertools_product [] = [[]]"
| "itertools_product (r # rs) = concat (map (\<lambda>x. map (\<lambda>combo. x # combo) (itertools_product rs)) r)"

text \<open>The body of the \<^verbatim>\<open>for combo in product(*ranges)\<close> loop of \<^verbatim>\<open>generate_formulas\<close>.\<close>

fun generate_loop ::
  "symbol list \<Rightarrow> mass_table \<Rightarrow> real \<Rightarrow> real \<Rightarrow> int \<Rightarrow> int list list \<Rightarrow> formula gen" where
  "generate_loop keys monoisotopiqueMasses minMass maxMass maxTotalAtoms [] = Stop"
| "generate_loop keys monoisotopiqueMasses minMass maxMass maxTotalAtoms (combo # combos) =
     (let f = zip keys combo;
          totalAtoms = sum_list (map snd f)
      in if totalAtoms = 0 \<or> totalAtoms > maxTotalAtoms
         then generate_loop keys monoisotopiqueMasses minMass maxMass maxTotalAtoms combos
         else case calculate_mass f monoisotopiqueMasses of
                Inl e \<Rightarrow> Raise e
              | Inr m \<Rightarrow>
                  if minMass \<le> m \<and> m \<le> maxMass
                  then Yield f (generate_loop keys monoisotopiqueMasses minMass maxMass maxTotalAtoms combos)
                  else generate_loop keys monoisotopiqueMasses minMass maxMass maxTotalAtoms combos)"

text \<open>\<^verbatim>\<open>range(lo, hi + 1)\<close> is the list \<open>[lo..hi]\<close>, empty when \<open>hi < lo\<close>.\<close>

definition generate_formulas ::
  "atom_ranges \<Rightarrow> mass_table \<Rightarrow> real \<Rightarrow> real \<Rightarrow> int \<Rightarrow> formula gen" where
  "generate_formulas atomRanges monoisotopiqueMasses minMass maxMass maxTotalAtoms =
     (let ranges = map (\<lambda>(element, lo, hi). [lo..hi]) atomRanges
      in generate_loop (map fst atomRanges) monoisotopiqueMasses minMass maxMass maxTotalAtoms
           (itertools_product ranges))"

section \<open>Search orchestrator\<close>

text \<open>
  The \<^verbatim>\<open>for formula in generate_formulas(...)\<close> loop of \<^verbatim>\<open>find_molecular_formulas\<close>;
  \<open>possible_formulas\<close> is the list built so far. Dividing by a zero mass raises
  \<^verbatim>\<open>ZeroDivisionError\<close>.
\<close>

fun search_loop ::
  "mass_table \<Rightarrow> real \<Rightarrow> real \<Rightarrow> real \<times> real \<Rightarrow> candidate list \<Rightarrow> formula gen
     \<Rightarrow> error + candidate list" where
  "search_loop monoisotopiqueMasses exactMass ionization unsaturationRange possible_formulas Stop =
     Inr possible_formulas"
| "search_loop monoisotopiqueMasses exactMass ionization unsaturationRange possible_formulas (Raise e) =
     Inl e"
| "search_loop monoisotopiqueMasses exactMass ionization unsaturationRange possible_formulas (Yield f g) =
     (case calculate_mass f monoisotopiqueMasses of
        Inl e \<Rightarrow> Inl e
      | Inr m \<Rightarrow>
          (let u = calculate_unsaturation f
           in if fst unsaturationRange \<le> u \<and> u \<le> snd unsaturationRange
              then if m = 0 then Inl ZeroDivisionError
                   else (let deviationppm = ((exactMass - m) / m) * 1000000;
                             mz = m + ionization
                         in search_loop monoisotopiqueMasses exactMass ionization unsaturationRange
                              (possible_formulas @
                                 [\<lparr>formula = f, mass = m, m_z = mz, deviation = deviationppm,
                                   unsaturation = u\<rparr>]) g)
              else search_loop monoisotopiqueMasses exactMass ionization unsaturationRange
                     possible_formulas g))"

text \<open>
  \<^verbatim>\<open>possible_formulas\<close> as it stands when the loop ends, before it is sorted. The
  enumerator is called without \<^verbatim>\<open>maxTotalAtoms\<close>, so with its default 150.
\<close>

definition collect_formulas ::
  "real \<Rightarrow> real \<Rightarrow> atom_ranges \<Rightarrow> mass_table \<Rightarrow> real \<Rightarrow> real \<times> real \<Rightarrow> error + candidate list" where
  "collect_formulas targetMass ppmTolerance atomRanges monoisotopiqueMasses ionization unsaturationRange =
     (let tolerance = ppmTolerance / 1000000;
          exactMass = targetMass - ionization;
          minMass = exactMass - tolerance * exactMass;
          maxMass = exactMass + tolerance * exactMass
      in search_loop monoisotopiqueMasses exactMass ionization unsaturationRange []
           (generate_formulas atomRanges monoisotopiqueMasses minMass maxMass 150))"

text \<open>The line printed before the search starts.\<close>

definition printed ::
  "real \<Rightarrow> real \<Rightarrow> real \<Rightarrow> pyval list list" where
  "printed targetMass ppmTolerance ionization =
     (let tolerance = ppmTolerance / 1000000;
          exactMass = targetMass - ionization;
          minMass = exactMass - tolerance * exactMass;
          maxMass = exactMass + tolerance * exactMass
      in [[Str ''\<newline>Mass range from the expected value:'', Str ''['', Num minMass, Str '','',
           Num maxMass, Str '']'']])"

text \<open>
  \<^verbatim>\<open>find_molecular_formulas\<close>: the lines written to standard output, and either the exception
  that ended the call or the returned list. \<^verbatim>\<open>list.sort(key=...)\<close> is a stable sort, as
  \<open>sort_key\<close> is.
\<close>

definition find_molecular_formulas ::
  "real \<Rightarrow> real \<Rightarrow> atom_ranges \<Rightarrow> mass_table \<Rightarrow> real \<Rightarrow> real \<times> real
     \<Rightarrow> pyval list list \<times> (error + candidate list)" where
  "find_molecular_formulas targetMass ppmTolerance atomRanges monoisotopiqueMasses ionization unsaturationRange =
     (printed targetMass ppmTolerance ionization,
      case collect_formulas targetMass ppmTolerance atomRanges monoisotopiqueMasses ionization
             unsaturationRange of
        Inl e \<Rightarrow> Inl e
      | Inr possible_formulas \<Rightarrow> Inr (sort_key (\<lambda>x. \<bar>deviation x\<bar>) possible_formulas))"

section \<open>Vocabulary of the properties\<close>

text \<open>
  The definitions of this section are not functions of the program: they name what the
  properties below talk about.
\<close>

text \<open>The total atom count of a formula, \<^verbatim>\<open>sum(formula.values())\<close>.\<close>

definition total_atoms :: "formula \<Rightarrow> int" where
  "total_atoms f = sum_list (map snd f)"

text \<open>
  A formula is a point of the Cartesian product of the per-element inclusive ranges: it has the
  keys of \<open>atomRanges\<close>, in the same order, and each count lies within the bounds of its key.
\<close>

definition within_ranges :: "atom_ranges \<Rightarrow> formula \<Rightarrow> bool" where
  "within_ranges atomRanges f =
     list_all2 (\<lambda>(e, c) (e', lo, hi). e = e' \<and> lo \<le> c \<and> c \<le> hi) f atomRanges"

text \<open>The mass of a formula is computed without failure and lies in the closed window.\<close>

definition mass_in :: "mass_table \<Rightarrow> real \<Rightarrow> real \<Rightarrow> formula \<Rightarrow> bool" where
  "mass_in M lo hi f = (case calculate_mass f M of Inl e \<Rightarrow> False | Inr m \<Rightarrow> lo \<le> m \<and> m \<le> hi)"

text \<open>The mass of a formula as a plain sum, a symbol without an entry contributing nothing.\<close>

definition mass_total :: "mass_table \<Rightarrow> formula \<Rightarrow> real" where
  "mass_total M f = (\<Sum>(e, c)\<leftarrow>f. (case M e of None \<Rightarrow> 0 | Some m \<Rightarrow> m * real_of_int c))"

text \<open>
  The count of an element in a formula, an absent element counting as 0, and the double bond
  equivalents \<open>C - (H + X)/2 + N/2 + 1\<close> with \<open>X\<close> the sum of the halogen counts, both as the
  specification words them.
\<close>

definition atom_count :: "formula \<Rightarrow> symbol \<Rightarrow> int" where
  "atom_count f s = (case map_of f s of None \<Rightarrow> 0 | Some c \<Rightarrow> c)"

definition dbe :: "formula \<Rightarrow> real" where
  "dbe f =
     (let X = atom_count f ''F'' + atom_count f ''Cl'' + atom_count f ''Br'' + atom_count f ''I''
      in real_of_int (atom_count f ''C'') - (real_of_int (atom_count f ''H'') + real_of_int X) / 2
           + real_of_int (atom_count f ''N'') / 2 + 1)"

text \<open>
  The two sides of the comparison of \<open>is_valid_formula\<close>: the written-out sum over the nine
  symbols, and the sum over the items of the formula.
\<close>

definition total_bonds :: "formula \<Rightarrow> int" where
  "total_bonds f =
     4 * dict_get f ''C'' 0 + 1 * dict_get f ''H'' 0 + 3 * dict_get f ''N'' 0 +
     2 * dict_get f ''O'' 0 + 2 * dict_get f ''S'' 0 + 1 * dict_get f ''F'' 0 +
     7 * dict_get f ''Cl'' 0 + 7 * dict_get f ''Br'' 0 + 7 * dict_get f ''I'' 0"

definition bond_total :: "formula \<Rightarrow> int" where
  "bond_total f = (\<Sum>(e, c)\<leftarrow>f. dict_get valency e 0 * c)"

text \<open>
  The mass window as the specification words it: \<open>exactMass = targetMass - ionization\<close>, and
  the tolerance \<open>ppmTolerance / 1e6\<close> applied relative to \<open>exactMass\<close> on both sides.
\<close>

definition mass_window :: "real \<Rightarrow> real \<Rightarrow> real \<Rightarrow> real \<times> real" where
  "mass_window targetMass ppmTolerance ionization =
     (let exactMass = targetMass - ionization
      in (exactMass - (ppmTolerance / 1000000) * exactMass,
          exactMass + (ppmTolerance / 1000000) * exactMass))"

section \<open>Cartesian product and ranges\<close>

lemma set_itertools_product:
  "set (itertools_product rs) = {combo. list_all2 (\<lambda>x r. x \<in> set r) combo rs}"
proof (induction rs)
  case Nil
  show ?case by simp
next
  case (Cons r rs)
  show ?case
  proof (rule set_eqI)
    fix combo
    show "combo \<in> set (itertools_product (r # rs)) \<longleftrightarrow>
          combo \<in> {combo. list_all2 (\<lambda>x r. x \<in> set r) combo (r # rs)}"
      using Cons.IH by (cases combo) auto
  qed
qed

lemma distinct_product_step:
  "distinct r \<Longrightarrow> distinct P \<Longrightarrow> distinct (concat (map (\<lambda>x. map (\<lambda>combo. x # combo) P) r))"
  by (induction r) (auto simp: distinct_map inj_on_def)

lemma distinct_itertools_product:
  "\<forall>r \<in> set rs. distinct r \<Longrightarrow> distinct (itertools_product rs)"
  by (induction rs) (simp_all add: distinct_product_step)

lemma length_itertools_product:
  "combo \<in> set (itertools_product rs) \<Longrightarrow> length combo = length rs"
  by (simp add: set_itertools_product list_all2_lengthD)

lemma itertools_product_empty:
  "[] \<in> set rs \<Longrightarrow> itertools_product rs = []"
  by (induction rs) auto

lemma zip_within_ranges:
  "list_all2 (\<lambda>x r. x \<in> set r) combo (map (\<lambda>(element, lo, hi). [lo..hi]) ar) \<Longrightarrow>
   within_ranges ar (zip (map fst ar) combo)"
  unfolding within_ranges_def
proof (induction ar arbitrary: combo)
  case Nil
  then show ?case by simp
next
  case (Cons a ar)
  then show ?case by (cases combo; cases a) auto
qed

lemma within_ranges_zip:
  "within_ranges ar f \<Longrightarrow>
   f = zip (map fst ar) (map snd f) \<and>
   list_all2 (\<lambda>x r. x \<in> set r) (map snd f) (map (\<lambda>(element, lo, hi). [lo..hi]) ar)"
  unfolding within_ranges_def
proof (induction ar arbitrary: f)
  case Nil
  then show ?case by simp
next
  case (Cons a ar)
  then show ?case by (cases f; cases a) auto
qed

lemma set_enumeration:
  "set (map (zip (map fst ar)) (itertools_product (map (\<lambda>(element, lo, hi). [lo..hi]) ar)))
     = {f. within_ranges ar f}"
proof (rule set_eqI)
  fix f
  show "f \<in> set (map (zip (map fst ar)) (itertools_product (map (\<lambda>(element, lo, hi). [lo..hi]) ar)))
        \<longleftrightarrow> f \<in> {f. within_ranges ar f}"
  proof
    assume "f \<in> set (map (zip (map fst ar)) (itertools_product (map (\<lambda>(element, lo, hi). [lo..hi]) ar)))"
    then show "f \<in> {f. within_ranges ar f}"
      by (auto simp: set_itertools_product zip_within_ranges)
  next
    assume "f \<in> {f. within_ranges ar f}"
    then have w: "within_ranges ar f" by simp
    from within_ranges_zip [OF w]
    have "f = zip (map fst ar) (map snd f)"
      and "map snd f \<in> set (itertools_product (map (\<lambda>(element, lo, hi). [lo..hi]) ar))"
      by (simp_all add: set_itertools_product)
    then show "f \<in> set (map (zip (map fst ar)) (itertools_product (map (\<lambda>(element, lo, hi). [lo..hi]) ar)))"
      by (metis image_eqI set_map)
  qed
qed

lemma enumeration_image:
  "zip (map fst ar) ` set (itertools_product (map (\<lambda>(element, lo, hi). [lo..hi]) ar))
     = {f. within_ranges ar f}"
  using set_enumeration [of ar] by simp

lemma map_snd_zip_keys:
  "length combo = length keys \<Longrightarrow> map snd (zip keys combo) = combo"
  by (simp add: map_snd_zip)

lemma distinct_enumeration:
  "distinct (map (zip (map fst ar)) (itertools_product (map (\<lambda>(element, lo, hi). [lo..hi]) ar)))"
proof -
  let ?P = "itertools_product (map (\<lambda>(element, lo, hi). [lo..hi]) ar)"
  have d: "distinct ?P"
    by (rule distinct_itertools_product) auto
  have i: "inj_on (zip (map fst ar)) (set ?P)"
  proof (rule inj_onI)
    fix a b
    assume a: "a \<in> set ?P" and b: "b \<in> set ?P"
      and eq: "zip (map fst ar) a = zip (map fst ar) b"
    have "length a = length (map fst ar)" "length b = length (map fst ar)"
      using a b by (simp_all add: length_itertools_product)
    then have "map snd (zip (map fst ar) a) = a" "map snd (zip (map fst ar) b) = b"
      by (simp_all add: map_snd_zip_keys)
    with eq show "a = b" by metis
  qed
  show ?thesis
    unfolding distinct_map using d i by (rule conjI)
qed

lemma within_ranges_keys:
  "within_ranges ar f \<Longrightarrow> map fst f = map fst ar"
  unfolding within_ranges_def
  by (induction f ar rule: list_all2_induct) auto

lemma within_ranges_nonneg:
  "within_ranges ar f \<Longrightarrow> \<forall>(e, lo, hi) \<in> set ar. 0 \<le> lo \<Longrightarrow> \<forall>(e, c) \<in> set f. 0 \<le> c"
  unfolding within_ranges_def
  by (induction f ar rule: list_all2_induct) auto

lemma total_atoms_nonneg:
  "\<forall>(e, c) \<in> set f. 0 \<le> c \<Longrightarrow> 0 \<le> total_atoms f"
  unfolding total_atoms_def by (rule sum_list_nonneg) auto


section \<open>The mass sum\<close>

lemma mass_sum_covered:
  "\<forall>e \<in> fst ` set f. M e \<noteq> None \<Longrightarrow> mass_sum M acc f = Inr (acc + mass_total M f)"
  by (induction f arbitrary: acc) (auto simp: mass_total_def)

lemma calculate_mass_covered:
  "\<forall>e \<in> fst ` set f. M e \<noteq> None \<Longrightarrow> calculate_mass f M = Inr (mass_total M f)"
  by (simp add: calculate_mass_def mass_sum_covered)

lemma mass_sum_missing:
  "length combo = length keys \<Longrightarrow> find (\<lambda>k. M k = None) keys = Some k \<Longrightarrow>
   mass_sum M acc (zip keys combo) = Inl (KeyError k)"
proof (induction keys arbitrary: combo acc)
  case Nil
  then show ?case by simp
next
  case (Cons a keys)
  then show ?case by (cases combo) (auto split: if_splits)
qed

lemma mass_total_nonneg:
  "\<forall>(e, c) \<in> set f. 0 \<le> c \<Longrightarrow> \<forall>e \<in> fst ` set f. \<exists>m. M e = Some m \<and> 0 < m \<Longrightarrow>
   0 \<le> mass_total M f"
  by (induction f) (auto simp: mass_total_def)

lemma mass_total_pos:
  "\<forall>(e, c) \<in> set f. 0 \<le> c \<Longrightarrow> \<forall>e \<in> fst ` set f. \<exists>m. M e = Some m \<and> 0 < m \<Longrightarrow>
   0 < total_atoms f \<Longrightarrow> 0 < mass_total M f"
proof (induction f)
  case Nil
  then show ?case by (simp add: total_atoms_def)
next
  case (Cons a f)
  obtain e c where a: "a = (e, c)" by (cases a)
  from Cons.prems a obtain m where m: "M e = Some m" "0 < m" by auto
  from Cons.prems a have c: "0 \<le> c" by simp
  have rest: "0 \<le> mass_total M f"
    using Cons.prems by (intro mass_total_nonneg) auto
  have split: "mass_total M (a # f) = m * real_of_int c + mass_total M f"
    using a m by (simp add: mass_total_def)
  show ?case
  proof (cases "c = 0")
    case True
    then have "0 < total_atoms f" using Cons.prems(3) a by (simp add: total_atoms_def)
    then have "0 < mass_total M f" using Cons.IH Cons.prems by auto
    then show ?thesis using split True by simp
  next
    case False
    then have "0 < real_of_int c" using c by simp
    then have "0 < m * real_of_int c" using m by simp
    then show ?thesis using split rest by linarith
  qed
qed


section \<open>The enumerator\<close>

lemma yields_generate_loop_sound:
  "f \<in> set (yields (generate_loop keys M lo hi mx combos)) \<Longrightarrow>
   f \<in> zip keys ` set combos \<and> total_atoms f \<noteq> 0 \<and> total_atoms f \<le> mx \<and> mass_in M lo hi f"
  by (induction combos)
     (auto simp: Let_def total_atoms_def mass_in_def split: if_splits sum.splits)

lemma generate_loop_covered:
  "\<forall>combo \<in> set combos. \<exists>m. calculate_mass (zip keys combo) M = Inr m \<Longrightarrow>
   raised (generate_loop keys M lo hi mx combos) = None \<and>
   yields (generate_loop keys M lo hi mx combos) =
     filter (\<lambda>f. total_atoms f \<noteq> 0 \<and> total_atoms f \<le> mx \<and> mass_in M lo hi f)
       (map (zip keys) combos)"
  by (induction combos)
     (auto simp: Let_def total_atoms_def mass_in_def split: if_splits sum.splits)

lemma generate_loop_failing:
  "\<forall>combo \<in> set combos. calculate_mass (zip keys combo) M = Inl e \<Longrightarrow>
   generate_loop keys M lo hi mx combos =
     (if \<exists>f \<in> zip keys ` set combos. total_atoms f \<noteq> 0 \<and> total_atoms f \<le> mx
      then Raise e else Stop)"
  by (induction combos) (auto simp: Let_def total_atoms_def)

lemma yields_generate_formulas_sound:
  assumes "f \<in> set (yields (generate_formulas ar M lo hi mx))"
  shows "within_ranges ar f \<and> total_atoms f \<noteq> 0 \<and> total_atoms f \<le> mx \<and> mass_in M lo hi f"
proof -
  from assms have
    "f \<in> set (yields (generate_loop (map fst ar) M lo hi mx
                 (itertools_product (map (\<lambda>(element, lo, hi). [lo..hi]) ar))))"
    by (simp add: generate_formulas_def)
  from yields_generate_loop_sound [OF this] show ?thesis
    using enumeration_image [of ar] by auto
qed

lemma generate_formulas_covered:
  assumes "\<forall>e \<in> set (map fst ar). M e \<noteq> None"
  shows "raised (generate_formulas ar M lo hi mx) = None"
    and "yields (generate_formulas ar M lo hi mx) =
           filter (\<lambda>f. total_atoms f \<noteq> 0 \<and> total_atoms f \<le> mx \<and> mass_in M lo hi f)
             (map (zip (map fst ar)) (itertools_product (map (\<lambda>(element, lo, hi). [lo..hi]) ar)))"
proof -
  let ?P = "itertools_product (map (\<lambda>(element, lo, hi). [lo..hi]) ar)"
  have "\<forall>combo \<in> set ?P. \<exists>m. calculate_mass (zip (map fst ar) combo) M = Inr m"
  proof
    fix combo
    assume "combo \<in> set ?P"
    have "\<forall>e \<in> fst ` set (zip (map fst ar) combo). M e \<noteq> None"
    proof
      fix e
      assume "e \<in> fst ` set (zip (map fst ar) combo)"
      then obtain c where "(e, c) \<in> set (zip (map fst ar) combo)" by auto
      then have "e \<in> set (map fst ar)" by (rule set_zip_leftD)
      with assms show "M e \<noteq> None" by blast
    qed
    from calculate_mass_covered [OF this]
    show "\<exists>m. calculate_mass (zip (map fst ar) combo) M = Inr m" by blast
  qed
  from generate_loop_covered [OF this, of lo hi mx]
  show "raised (generate_formulas ar M lo hi mx) = None"
    and "yields (generate_formulas ar M lo hi mx) =
           filter (\<lambda>f. total_atoms f \<noteq> 0 \<and> total_atoms f \<le> mx \<and> mass_in M lo hi f)
             (map (zip (map fst ar)) ?P)"
    by (simp_all add: generate_formulas_def)
qed

lemma generate_formulas_missing:
  assumes "find (\<lambda>k. M k = None) (map fst ar) = Some k"
  shows "generate_formulas ar M lo hi mx =
     (if \<exists>f. within_ranges ar f \<and> total_atoms f \<noteq> 0 \<and> total_atoms f \<le> mx
      then Raise (KeyError k) else Stop)"
proof -
  let ?P = "itertools_product (map (\<lambda>(element, lo, hi). [lo..hi]) ar)"
  have "\<forall>combo \<in> set ?P. calculate_mass (zip (map fst ar) combo) M = Inl (KeyError k)"
  proof
    fix combo
    assume "combo \<in> set ?P"
    then have "length combo = length (map fst ar)"
      by (simp add: length_itertools_product)
    from mass_sum_missing [OF this assms]
    show "calculate_mass (zip (map fst ar) combo) M = Inl (KeyError k)"
      by (simp add: calculate_mass_def)
  qed
  from generate_loop_failing [OF this, of lo hi mx]
  have "generate_formulas ar M lo hi mx =
     (if \<exists>f \<in> zip (map fst ar) ` set ?P. total_atoms f \<noteq> 0 \<and> total_atoms f \<le> mx
      then Raise (KeyError k) else Stop)"
    by (simp add: generate_formulas_def)
  then show ?thesis
    unfolding enumeration_image by simp
qed

lemma generate_formulas_empty_range:
  assumes "(e, lo, hi) \<in> set ar" and "hi < lo"
  shows "generate_formulas ar M minMass maxMass mx = Stop"
proof -
  have "[lo..hi] = []" using assms(2) by simp
  then have "[] \<in> set (map (\<lambda>(element, lo, hi). [lo..hi]) ar)"
    using assms(1) by force
  then show ?thesis
    by (simp add: generate_formulas_def itertools_product_empty)
qed


lemma within_ranges_mass_missing:
  assumes "find (\<lambda>k. M k = None) (map fst ar) = Some k" and "within_ranges ar f"
  shows "calculate_mass f M = Inl (KeyError k)"
proof -
  from within_ranges_zip [OF assms(2)] have z: "f = zip (map fst ar) (map snd f)" by simp
  have "length f = length ar"
    using assms(2) by (simp add: within_ranges_def list_all2_lengthD)
  then have "length (map snd f) = length (map fst ar)" by simp
  from mass_sum_missing [OF this assms(1), of 0]
  have "mass_sum M 0 (zip (map fst ar) (map snd f)) = Inl (KeyError k)" .
  with z show ?thesis by (simp add: calculate_mass_def)
qed

lemma yields_generate_formulas:
  "distinct (yields (generate_formulas ar M lo hi mx)) \<and>
   set (yields (generate_formulas ar M lo hi mx)) =
     {f. within_ranges ar f \<and> total_atoms f \<noteq> 0 \<and> total_atoms f \<le> mx \<and> mass_in M lo hi f}"
proof (cases "find (\<lambda>k. M k = None) (map fst ar)")
  case None
  then have cov: "\<forall>e \<in> set (map fst ar). M e \<noteq> None"
    by (auto simp: find_None_iff)
  note c = generate_formulas_covered(2) [OF cov, of lo hi mx]
  have "distinct (yields (generate_formulas ar M lo hi mx))"
    unfolding c by (rule distinct_filter) (rule distinct_enumeration)
  moreover have "set (yields (generate_formulas ar M lo hi mx)) =
     {f. within_ranges ar f \<and> total_atoms f \<noteq> 0 \<and> total_atoms f \<le> mx \<and> mass_in M lo hi f}"
    unfolding c using set_enumeration [of ar] by auto
  ultimately show ?thesis by (rule conjI)
next
  case (Some k)
  have "yields (generate_formulas ar M lo hi mx) = []"
    unfolding generate_formulas_missing [OF Some] by simp
  moreover have "\<not> mass_in M lo hi f" if "within_ranges ar f" for f
    using within_ranges_mass_missing [OF Some that] by (simp add: mass_in_def)
  ultimately show ?thesis by auto
qed

section \<open>The orchestrator\<close>

lemma search_loop_sound:
  "search_loop M ex ion ur acc g = Inr rs \<Longrightarrow>
   \<exists>new. rs = acc @ new \<and>
     (\<forall>r \<in> set new. formula r \<in> set (yields g) \<and> calculate_mass (formula r) M = Inr (mass r) \<and>
        mass r \<noteq> 0 \<and> m_z r = mass r + ion \<and> deviation r = ((ex - mass r) / mass r) * 1000000 \<and>
        unsaturation r = calculate_unsaturation (formula r) \<and>
        fst ur \<le> unsaturation r \<and> unsaturation r \<le> snd ur)"
proof (induction g arbitrary: acc)
  case Stop
  then show ?case by simp
next
  case (Raise e)
  then show ?case by simp
next
  case (Yield f g)
  show ?case
  proof (cases "calculate_mass f M")
    case (Inl e)
    with Yield.prems show ?thesis by simp
  next
    case (Inr m)
    show ?thesis
    proof (cases "fst ur \<le> calculate_unsaturation f \<and> calculate_unsaturation f \<le> snd ur")
      case False
      with Yield.prems Inr have "search_loop M ex ion ur acc g = Inr rs"
        by (auto simp: Let_def)
      from Yield.IH [OF this] show ?thesis by auto
    next
      case True
      with Yield.prems Inr have m0: "m \<noteq> 0"
        by (auto simp: Let_def split: if_splits)
      let ?r = "\<lparr>formula = f, mass = m, m_z = m + ion, deviation = ((ex - m) / m) * 1000000,
                 unsaturation = calculate_unsaturation f\<rparr>"
      from Yield.prems Inr True m0 have "search_loop M ex ion ur (acc @ [?r]) g = Inr rs"
        by (simp add: Let_def)
      from Yield.IH [OF this] obtain new where
        new: "rs = (acc @ [?r]) @ new" and
        all: "\<forall>r \<in> set new. formula r \<in> set (yields g) \<and> calculate_mass (formula r) M = Inr (mass r) \<and>
        mass r \<noteq> 0 \<and> m_z r = mass r + ion \<and> deviation r = ((ex - mass r) / mass r) * 1000000 \<and>
        unsaturation r = calculate_unsaturation (formula r) \<and>
        fst ur \<le> unsaturation r \<and> unsaturation r \<le> snd ur"
        by blast
      have "rs = acc @ (?r # new)" using new by simp
      moreover have "\<forall>r \<in> set (?r # new). formula r \<in> set (yields (Yield f g)) \<and>
        calculate_mass (formula r) M = Inr (mass r) \<and>
        mass r \<noteq> 0 \<and> m_z r = mass r + ion \<and> deviation r = ((ex - mass r) / mass r) * 1000000 \<and>
        unsaturation r = calculate_unsaturation (formula r) \<and>
        fst ur \<le> unsaturation r \<and> unsaturation r \<le> snd ur"
        using all Inr True m0 by auto
      ultimately show ?thesis by blast
    qed
  qed
qed

lemma search_loop_returns:
  "raised g = None \<Longrightarrow> \<forall>f \<in> set (yields g). \<exists>m. calculate_mass f M = Inr m \<and> m \<noteq> 0 \<Longrightarrow>
   \<exists>rs. search_loop M ex ion ur acc g = Inr rs"
proof (induction g arbitrary: acc)
  case Stop
  then show ?case by simp
next
  case (Raise e)
  then show ?case by simp
next
  case (Yield f g)
  then obtain m where m: "calculate_mass f M = Inr m" "m \<noteq> 0" by auto
  have "\<And>acc'. \<exists>rs. search_loop M ex ion ur acc' g = Inr rs"
    using Yield by simp
  then show ?case using m by (simp add: Let_def)
qed

lemma search_loop_formulas:
  "search_loop M ex ion ur acc g = Inr rs \<Longrightarrow>
   map formula rs =
     map formula acc @
       filter (\<lambda>f. fst ur \<le> calculate_unsaturation f \<and> calculate_unsaturation f \<le> snd ur) (yields g)"
proof (induction g arbitrary: acc)
  case Stop
  then show ?case by simp
next
  case (Raise e)
  then show ?case by simp
next
  case (Yield f g)
  show ?case
  proof (cases "calculate_mass f M")
    case (Inl e)
    with Yield.prems show ?thesis by simp
  next
    case (Inr m)
    show ?thesis
    proof (cases "fst ur \<le> calculate_unsaturation f \<and> calculate_unsaturation f \<le> snd ur")
      case False
      with Yield.prems Inr have "search_loop M ex ion ur acc g = Inr rs"
        by (auto simp: Let_def)
      from Yield.IH [OF this] False show ?thesis by auto
    next
      case True
      with Yield.prems Inr have m0: "m \<noteq> 0"
        by (auto simp: Let_def split: if_splits)
      let ?r = "\<lparr>formula = f, mass = m, m_z = m + ion, deviation = ((ex - m) / m) * 1000000,
                 unsaturation = calculate_unsaturation f\<rparr>"
      from Yield.prems Inr True m0 have "search_loop M ex ion ur (acc @ [?r]) g = Inr rs"
        by (simp add: Let_def)
      from Yield.IH [OF this] True show ?thesis by simp
    qed
  qed
qed

lemma snd_find_molecular_formulas:
  "snd (find_molecular_formulas t p ar M ion ur) =
     (case collect_formulas t p ar M ion ur of
        Inl e \<Rightarrow> Inl e
      | Inr pf \<Rightarrow> Inr (sort_key (\<lambda>x. \<bar>deviation x\<bar>) pf))"
  by (simp add: find_molecular_formulas_def)

lemma collect_formulas_window:
  "collect_formulas t p ar M ion ur =
     search_loop M (t - ion) ion ur []
       (generate_formulas ar M (fst (mass_window t p ion)) (snd (mass_window t p ion)) 150)"
  by (simp add: collect_formulas_def mass_window_def Let_def)

lemma find_molecular_formulas_InrD:
  assumes "snd (find_molecular_formulas t p ar M ion ur) = Inr rs"
  obtains pf where "collect_formulas t p ar M ion ur = Inr pf"
    and "rs = sort_key (\<lambda>x. \<bar>deviation x\<bar>) pf"
  using assms unfolding snd_find_molecular_formulas
  by (cases "collect_formulas t p ar M ion ur") auto

lemma collect_formulas_sound:
  assumes "collect_formulas t p ar M ion ur = Inr pf" and "r \<in> set pf"
  shows "formula r \<in> set (yields (generate_formulas ar M (fst (mass_window t p ion))
                                   (snd (mass_window t p ion)) 150))"
    and "calculate_mass (formula r) M = Inr (mass r)"
    and "mass r \<noteq> 0"
    and "m_z r = mass r + ion"
    and "deviation r = ((t - ion - mass r) / mass r) * 1000000"
    and "unsaturation r = calculate_unsaturation (formula r)"
    and "fst ur \<le> unsaturation r" and "unsaturation r \<le> snd ur"
  using search_loop_sound [OF assms(1) [unfolded collect_formulas_window]] assms(2)
  by auto


section \<open>The valence sums\<close>

lemma is_valid_formula_unfold:
  "is_valid_formula f =
     (case bond_sum 0 f of Inl e \<Rightarrow> Inl e | Inr mx \<Rightarrow> Inr (total_bonds f \<le> mx))"
  by (simp add: is_valid_formula_def total_bonds_def Let_def split: sum.splits)

lemma bond_sum_missing:
  "find (\<lambda>e. map_of valency e = None) (map fst f) = Some e \<Longrightarrow> bond_sum acc f = Inl (KeyError e)"
  by (induction f arbitrary: acc) (auto split: if_splits)

lemma bond_sum_all:
  "find (\<lambda>e. map_of valency e = None) (map fst f) = None \<Longrightarrow>
   bond_sum acc f = Inr (acc + bond_total f)"
proof (induction f arbitrary: acc)
  case Nil
  then show ?case by (simp add: bond_total_def)
next
  case (Cons a f)
  obtain e c where a: "a = (e, c)" by (cases a)
  from Cons.prems a obtain v where v: "map_of valency e = Some v"
    by (auto split: if_splits)
  from Cons.prems a have rest: "find (\<lambda>e. map_of valency e = None) (map fst f) = None"
    by (auto split: if_splits)
  show ?case
    using a v Cons.IH [OF rest] by (simp add: bond_total_def dict_get_def)
qed

lemma dict_get_Cons:
  "dict_get ((e, c) # f) k d = (if k = e then c else dict_get f k d)"
  by (simp add: dict_get_def)

lemma dict_get_fresh:
  assumes "e \<notin> fst ` set f"
  shows "dict_get f e d = d"
proof -
  have "map_of f e = None" using assms by (simp add: map_of_eq_None_iff)
  then show ?thesis by (simp add: dict_get_def)
qed

lemma valency_cases:
  "map_of valency e = Some v \<Longrightarrow>
   (e = ''C'' \<and> v = 4) \<or> (e = ''H'' \<and> v = 1) \<or> (e = ''N'' \<and> v = 3) \<or>
   (e = ''O'' \<and> v = 2) \<or> (e = ''S'' \<and> v = 2) \<or> (e = ''F'' \<and> v = 1) \<or>
   (e = ''Cl'' \<and> v = 7) \<or> (e = ''Br'' \<and> v = 7) \<or> (e = ''I'' \<and> v = 7)"
  by (simp add: valency_def split: if_splits)

lemma total_bonds_Cons:
  assumes "map_of valency e = Some v" and "e \<notin> fst ` set f"
  shows "total_bonds ((e, c) # f) = v * c + total_bonds f"
proof -
  note z = dict_get_fresh [OF assms(2), of "0::int"]
  from valency_cases [OF assms(1)] show ?thesis
  proof (elim disjE conjE)
    assume "e = ''C''" "v = 4"
    then show ?thesis using z by (simp add: total_bonds_def dict_get_Cons)
  next
    assume "e = ''H''" "v = 1"
    then show ?thesis using z by (simp add: total_bonds_def dict_get_Cons)
  next
    assume "e = ''N''" "v = 3"
    then show ?thesis using z by (simp add: total_bonds_def dict_get_Cons)
  next
    assume "e = ''O''" "v = 2"
    then show ?thesis using z by (simp add: total_bonds_def dict_get_Cons)
  next
    assume "e = ''S''" "v = 2"
    then show ?thesis using z by (simp add: total_bonds_def dict_get_Cons)
  next
    assume "e = ''F''" "v = 1"
    then show ?thesis using z by (simp add: total_bonds_def dict_get_Cons)
  next
    assume "e = ''Cl''" "v = 7"
    then show ?thesis using z by (simp add: total_bonds_def dict_get_Cons)
  next
    assume "e = ''Br''" "v = 7"
    then show ?thesis using z by (simp add: total_bonds_def dict_get_Cons)
  next
    assume "e = ''I''" "v = 7"
    then show ?thesis using z by (simp add: total_bonds_def dict_get_Cons)
  qed
qed

lemma total_bonds_eq:
  "dict_ok f \<Longrightarrow> find (\<lambda>e. map_of valency e = None) (map fst f) = None \<Longrightarrow>
   total_bonds f = bond_total f"
proof (induction f)
  case Nil
  then show ?case by (simp add: total_bonds_def bond_total_def dict_get_def)
next
  case (Cons a f)
  obtain e c where a: "a = (e, c)" by (cases a)
  from Cons.prems a obtain v where v: "map_of valency e = Some v"
    by (auto split: if_splits)
  from Cons.prems a have rest: "find (\<lambda>e. map_of valency e = None) (map fst f) = None"
    by (auto split: if_splits)
  from Cons.prems a have ok: "dict_ok f" and fresh: "e \<notin> fst ` set f"
    by (auto simp: dict_ok_def)
  have "total_bonds (a # f) = v * c + total_bonds f"
    using a total_bonds_Cons [OF v fresh] by simp
  also have "\<dots> = v * c + bond_total f"
    using Cons.IH [OF ok rest] by simp
  also have "\<dots> = bond_total (a # f)"
    using a v by (simp add: bond_total_def dict_get_def)
  finally show ?case .
qed


section \<open>A worked search\<close>

text \<open>
  A search for the target mass 13 with a tolerance of 100000 ppm over C in 0..1 and H in 0..2:
  the window is [11.7, 14.3], and CH, CH2 and C are returned in this order.
\<close>

lemma upto_0_1: "[0..1::int] = [0, 1]"
  by (simp add: upto.simps)

lemma upto_0_2: "[0..2::int] = [0, 1, 2]"
  by (simp add: upto.simps)

lemma example_search:
  "snd (find_molecular_formulas 13 100000 [(''C'', (0, 1)), (''H'', (0, 2))] [''C'' \<mapsto> 12, ''H'' \<mapsto> 1] 0
          (- 10, 10)) =
     Inr [\<lparr>formula = [(''C'', 1), (''H'', 1)], mass = 13, m_z = 13, deviation = 0, unsaturation = 3 / 2\<rparr>,
          \<lparr>formula = [(''C'', 1), (''H'', 2)], mass = 14, m_z = 14, deviation = - (500000 / 7),
            unsaturation = 1\<rparr>,
          \<lparr>formula = [(''C'', 1), (''H'', 0)], mass = 12, m_z = 12, deviation = 250000 / 3,
            unsaturation = 2\<rparr>]"
  by (simp add: find_molecular_formulas_def collect_formulas_def generate_formulas_def
        calculate_mass_def calculate_unsaturation_def dict_get_def upto_0_1 upto_0_2)

text \<open>
  The same search for the measured mass 14 of the ion with the ionization adjustment 1: the
  de-ionized mass is 13 and the window is again [11.7, 14.3].
\<close>

lemma example_search_ionized:
  "snd (find_molecular_formulas 14 100000 [(''C'', (0, 1)), (''H'', (0, 2))] [''C'' \<mapsto> 12, ''H'' \<mapsto> 1] 1
          (- 10, 10)) =
     Inr [\<lparr>formula = [(''C'', 1), (''H'', 1)], mass = 13, m_z = 14, deviation = 0, unsaturation = 3 / 2\<rparr>,
          \<lparr>formula = [(''C'', 1), (''H'', 2)], mass = 14, m_z = 15, deviation = - (500000 / 7),
            unsaturation = 1\<rparr>,
          \<lparr>formula = [(''C'', 1), (''H'', 0)], mass = 12, m_z = 13, deviation = 250000 / 3,
            unsaturation = 2\<rparr>]"
  by (simp add: find_molecular_formulas_def collect_formulas_def generate_formulas_def
        calculate_mass_def calculate_unsaturation_def dict_get_def upto_0_1 upto_0_2)

text \<open>Ranges used by the inputs with a negative minimum below.\<close>

lemma upto_m1_1: "[- 1..1::int] = [- 1, 0, 1]"
  by (simp add: upto.simps)

lemma upto_0_12: "[0..12::int] = [0, 1, 2, 3, 4, 5, 6, 7, 8, 9, 10, 11, 12]"
  by (simp add: upto.simps)

section \<open>The claims\<close>

text \<open>
  Claim C5. For every formula the unsaturation is \<open>C - (H + X)/2 + N/2 + 1\<close>, where \<open>X\<close> is the sum of the
  counts of F, Cl, Br and I and an element absent from the formula counts as 0; in particular a
  formula whose C, H, N and halogen counts are all zero has unsaturation 1.
\<close>

theorem calculate_unsaturation_dbe:
  "calculate_unsaturation f = dbe f \<and>
   (atom_count f ''C'' = 0 \<and> atom_count f ''H'' = 0 \<and> atom_count f ''N'' = 0 \<and>
    atom_count f ''F'' = 0 \<and> atom_count f ''Cl'' = 0 \<and> atom_count f ''Br'' = 0 \<and>
    atom_count f ''I'' = 0 \<longrightarrow> calculate_unsaturation f = 1)"
  by (simp add: calculate_unsaturation_def dbe_def atom_count_def dict_get_def Let_def)

text \<open>
  Claim C5, at concrete formulas: SO2 has no C, H, N or halogen and unsaturation 1; C2H4 has
  one double bond equivalent.
\<close>

theorem calculate_unsaturation_dbe_witness:
  "atom_count [(''O'', 2), (''S'', 1)] ''C'' = 0 \<and> calculate_unsaturation [(''O'', 2), (''S'', 1)] = 1
   \<and> calculate_unsaturation [(''C'', 2), (''H'', 4)] = dbe [(''C'', 2), (''H'', 4)]
   \<and> dbe [(''C'', 2), (''H'', 4)] = 1"
  using calculate_unsaturation_dbe [of "[(''O'', 2), (''S'', 1)]"]
    calculate_unsaturation_dbe [of "[(''C'', 2), (''H'', 4)]"]
  by (simp add: atom_count_def dbe_def)

text \<open>
  Claim C7 says that \<open>is_valid_formula\<close> returns true for every formula. For a formula with a
  symbol outside the valence table, here phosphorus, the lookup \<^verbatim>\<open>valency[elements]\<close> raises
  \<^verbatim>\<open>KeyError\<close> and nothing is returned.
\<close>

theorem is_valid_formula_counterexample:
  "is_valid_formula [(''P'', 1)] = Inl (KeyError ''P'')"
  by (simp add: is_valid_formula_def valency_def)

text \<open>
  Claim C7, amended. For every formula (a dictionary, so without a repeated key)
  \<open>is_valid_formula\<close> returns true when all its symbols belong to the valence table
  (C:4, H:1, N:3, O:2, S:2, F:1, Cl:7, Br:7, I:7), the two sums being then equal; otherwise it
  raises \<^verbatim>\<open>KeyError\<close> for the first symbol outside the table.
\<close>

theorem is_valid_formula_outcome:
  assumes "dict_ok f"
  shows "is_valid_formula f =
     (case find (\<lambda>e. map_of valency e = None) (map fst f) of
        None \<Rightarrow> Inr True
      | Some e \<Rightarrow> Inl (KeyError e))"
proof (cases "find (\<lambda>e. map_of valency e = None) (map fst f)")
  case None
  then show ?thesis
    using total_bonds_eq [OF assms None]
    by (simp add: is_valid_formula_unfold bond_sum_all)
next
  case (Some e)
  then show ?thesis
    by (simp add: is_valid_formula_unfold bond_sum_missing)
qed

text \<open>
  Claim C7, amended, at concrete formulas: methane is valid, and a formula with sodium raises.
\<close>

theorem is_valid_formula_outcome_witness:
  "dict_ok [(''C'', 1::int), (''H'', 4)] \<and> is_valid_formula [(''C'', 1), (''H'', 4)] = Inr True \<and>
   dict_ok [(''C'', 1::int), (''Na'', 1)] \<and> is_valid_formula [(''C'', 1), (''Na'', 1)] = Inl (KeyError ''Na'')"
proof -
  have h1: "dict_ok [(''C'', 1::int), (''H'', 4)]" by (simp add: dict_ok_def)
  have h2: "dict_ok [(''C'', 1::int), (''Na'', 1)]" by (simp add: dict_ok_def)
  show ?thesis
    using h1 h2 is_valid_formula_outcome [OF h1] is_valid_formula_outcome [OF h2]
    by (simp add: valency_def)
qed

text \<open>
  Claim C9 says that the search neither logs nor prints. \<open>find_molecular_formulas\<close> prints the
  mass range on every call: here the line for the window [0, 60].
\<close>

theorem find_molecular_formulas_prints_counterexample:
  "fst (find_molecular_formulas 30 1000000 [(''C'', (0, 0))] [''C'' \<mapsto> 12] 0 (- 10, 10)) =
     [[Str ''\<newline>Mass range from the expected value:'', Str ''['', Num 0, Str '','', Num 60, Str '']'']]"
  by (simp add: find_molecular_formulas_def printed_def)

text \<open>
  Claim C9, amended. For every input \<open>find_molecular_formulas\<close> prints exactly one line, the
  mass range \<open>[minMass, maxMass]\<close> it derived, and nothing else; its other observable effect
  is the value it returns.
\<close>

theorem find_molecular_formulas_prints:
  "fst (find_molecular_formulas targetMass ppmTolerance atomRanges M ionization unsaturationRange) =
     [[Str ''\<newline>Mass range from the expected value:'', Str ''['',
       Num (fst (mass_window targetMass ppmTolerance ionization)), Str '','',
       Num (snd (mass_window targetMass ppmTolerance ionization)), Str '']'']]"
  by (simp add: find_molecular_formulas_def printed_def mass_window_def Let_def)

text \<open>
  Claim C1 says that a symbol of \<open>atomRanges\<close> without a mass entry makes the search fail
  before enumeration. With the only range (0, 0) and an empty mass table, the single
  combination has no atom, the mass is never computed, and the empty list is returned.
\<close>

theorem missing_mass_entry_counterexample:
  "''C'' \<in> set (map fst [(''C'', (0::int, 0::int))]) \<and> (Map.empty :: mass_table) ''C'' = None \<and>
   snd (find_molecular_formulas 30 1000000 [(''C'', (0, 0))] Map.empty 0 (- 10, 10)) = Inr []"
  by (simp add: find_molecular_formulas_def collect_formulas_def generate_formulas_def)

text \<open>
  Claim C1, amended. If a symbol of \<open>atomRanges\<close> has no entry in the mass table, the
  missing entry is found by the mass computation of a candidate, during the traversal: the
  enumerator raises \<^verbatim>\<open>KeyError\<close> for the first such symbol when the product of the ranges
  holds a combination with a non-zero total atom count of at most \<open>maxTotalAtoms\<close>, and it
  ends without yielding otherwise; \<open>find_molecular_formulas\<close> fails with this
  \<^verbatim>\<open>KeyError\<close> in the first case (with the limit 150) and returns the empty list in the
  second.
\<close>

theorem missing_mass_entry_outcome:
  assumes "e \<in> set (map fst atomRanges)" and "M e = None"
  shows "\<exists>k. find (\<lambda>k. M k = None) (map fst atomRanges) = Some k \<and>
     generate_formulas atomRanges M minMass maxMass maxTotalAtoms =
       (if \<exists>f. within_ranges atomRanges f \<and> total_atoms f \<noteq> 0 \<and> total_atoms f \<le> maxTotalAtoms
        then Raise (KeyError k) else Stop) \<and>
     snd (find_molecular_formulas targetMass ppmTolerance atomRanges M ionization unsaturationRange) =
       (if \<exists>f. within_ranges atomRanges f \<and> total_atoms f \<noteq> 0 \<and> total_atoms f \<le> 150
        then Inl (KeyError k) else Inr [])"
proof -
  from assms have "find (\<lambda>k. M k = None) (map fst atomRanges) \<noteq> None"
    unfolding find_None_iff by blast
  then obtain k where k: "find (\<lambda>k. M k = None) (map fst atomRanges) = Some k" by auto
  note g = generate_formulas_missing [OF k]
  have "snd (find_molecular_formulas targetMass ppmTolerance atomRanges M ionization unsaturationRange) =
       (if \<exists>f. within_ranges atomRanges f \<and> total_atoms f \<noteq> 0 \<and> total_atoms f \<le> 150
        then Inl (KeyError k) else Inr [])"
    unfolding snd_find_molecular_formulas collect_formulas_window g by simp
  with k g show ?thesis by blast
qed

text \<open>
  Claim C1, amended, at a concrete input: X has no mass, and the combination C1 X0 raises.
\<close>

theorem missing_mass_entry_outcome_witness:
  "''X'' \<in> set (map fst [(''C'', (0::int, 1::int)), (''X'', (0, 1))]) \<and> [''C'' \<mapsto> 12::real] ''X'' = None \<and>
   snd (find_molecular_formulas 12 10 [(''C'', (0, 1)), (''X'', (0, 1))] [''C'' \<mapsto> 12] 0 (- 10, 10))
     = Inl (KeyError ''X'')"
proof -
  have h1: "''X'' \<in> set (map fst [(''C'', (0::int, 1::int)), (''X'', (0, 1))])" by simp
  have h2: "[''C'' \<mapsto> 12::real] ''X'' = None" by simp
  have w: "within_ranges [(''C'', (0, 1)), (''X'', (0, 1))] [(''C'', 1), (''X'', 0)] \<and>
           total_atoms [(''C'', 1), (''X'', 0)] \<noteq> 0 \<and> total_atoms [(''C'', 1), (''X'', 0)] \<le> 150"
    by (simp add: within_ranges_def total_atoms_def)
  then have ex: "\<exists>f. within_ranges [(''C'', (0, 1)), (''X'', (0, 1))] f \<and> total_atoms f \<noteq> 0 \<and>
                  total_atoms f \<le> 150"
    by (rule exI)
  from missing_mass_entry_outcome
         [where e = "''X''" and atomRanges = "[(''C'', (0, 1)), (''X'', (0, 1))]" and M = "[''C'' \<mapsto> 12]"
            and targetMass = 12 and ppmTolerance = 10 and ionization = 0
            and unsaturationRange = "(- 10, 10)", OF h1 h2] ex
  have "snd (find_molecular_formulas 12 10 [(''C'', (0, 1)), (''X'', (0, 1))] [''C'' \<mapsto> 12] 0 (- 10, 10))
     = Inl (KeyError ''X'')"
    by auto
  with h1 h2 show ?thesis by blast
qed

text \<open>
  Claim C2 says that a range with min > max makes the search fail with an invalid-range
  error. With the range (2, 1) for C, \<^verbatim>\<open>range(2, 2)\<close> is empty, so is the product, and the
  empty list is returned.
\<close>

theorem invalid_range_counterexample:
  "snd (find_molecular_formulas 30 1000000 [(''C'', (2, 1))] [''C'' \<mapsto> 12] 0 (- 10, 10)) = Inr []"
  by (simp add: find_molecular_formulas_def collect_formulas_def generate_formulas_def)

text \<open>
  Claim C2, amended. If an entry of \<open>atomRanges\<close> has min > max, no error is raised: the
  Cartesian product is empty, the enumerator yields nothing, and \<open>find_molecular_formulas\<close>
  returns the empty list.
\<close>

theorem invalid_range_returns_empty:
  assumes "(e, lo, hi) \<in> set atomRanges" and "hi < lo"
  shows "generate_formulas atomRanges M minMass maxMass maxTotalAtoms = Stop \<and>
         snd (find_molecular_formulas targetMass ppmTolerance atomRanges M ionization unsaturationRange)
           = Inr []"
  unfolding snd_find_molecular_formulas collect_formulas_window
    generate_formulas_empty_range [OF assms]
  by simp

text \<open>
  Claim C2, amended, at a concrete input with the range (3, 1) for H.
\<close>

theorem invalid_range_returns_empty_witness:
  "(''H'', 3, 1) \<in> set [(''C'', (0, 5)), (''H'', (3::int, 1::int))] \<and> (1::int) < 3 \<and>
   snd (find_molecular_formulas 16 100 [(''C'', (0, 5)), (''H'', (3, 1))] [''C'' \<mapsto> 12, ''H'' \<mapsto> 1] 0
          (0, 100)) = Inr []"
proof -
  have h1: "(''H'', 3, 1) \<in> set [(''C'', (0, 5)), (''H'', (3::int, 1::int))]" by simp
  have h2: "(1::int) < 3" by simp
  show ?thesis
    using h1 h2 invalid_range_returns_empty [OF h1 h2] by blast
qed

text \<open>
  Claim C3 says that every yielded formula has a total atom count strictly greater than 0.
  The enumerator skips a combination when its total is 0 or exceeds the limit, and tests
  nothing else: with the range (-1, 1) for C, the formula with -1 carbon and no hydrogen has
  the total -1 and is yielded.
\<close>

theorem generate_formulas_negative_counterexample:
  "[(''C'', - 1), (''H'', 0)] \<in>
     set (yields (generate_formulas [(''C'', (- 1, 1)), (''H'', (0, 1))] [''C'' \<mapsto> 12, ''H'' \<mapsto> 1]
                    (- 100) 100 150)) \<and>
   total_atoms [(''C'', - 1), (''H'', 0)] = - 1"
  by (simp add: generate_formulas_def calculate_mass_def total_atoms_def upto_m1_1 upto_0_1)

text \<open>
  Claim C3, amended. The enumerator yields, each once, exactly the formulas of the Cartesian
  product of the inclusive ranges whose total atom count is non-zero and at most
  \<open>maxTotalAtoms\<close> and whose mass lies in \<open>[minMass, maxMass]\<close>, both bounds included, and no
  other formula. When no range starts below 0, every yielded formula has a total atom count
  strictly greater than 0; when the mass table has an entry for every symbol of \<open>atomRanges\<close>,
  the enumerator ends without raising.
\<close>

theorem generate_formulas_exact:
  "distinct (yields (generate_formulas atomRanges M minMass maxMass maxTotalAtoms)) \<and>
   set (yields (generate_formulas atomRanges M minMass maxMass maxTotalAtoms)) =
     {f. within_ranges atomRanges f \<and> total_atoms f \<noteq> 0 \<and> total_atoms f \<le> maxTotalAtoms \<and>
         (\<exists>m. calculate_mass f M = Inr m \<and> minMass \<le> m \<and> m \<le> maxMass)} \<and>
   ((\<forall>(e, lo, hi) \<in> set atomRanges. 0 \<le> lo) \<longrightarrow>
      (\<forall>f \<in> set (yields (generate_formulas atomRanges M minMass maxMass maxTotalAtoms)).
         0 < total_atoms f)) \<and>
   ((\<forall>e \<in> set (map fst atomRanges). M e \<noteq> None) \<longrightarrow>
      raised (generate_formulas atomRanges M minMass maxMass maxTotalAtoms) = None)"
proof -
  let ?g = "generate_formulas atomRanges M minMass maxMass maxTotalAtoms"
  note y = yields_generate_formulas [of atomRanges M minMass maxMass maxTotalAtoms]
  have m: "mass_in M minMass maxMass f \<longleftrightarrow>
           (\<exists>m. calculate_mass f M = Inr m \<and> minMass \<le> m \<and> m \<le> maxMass)" for f
    by (cases "calculate_mass f M") (simp_all add: mass_in_def)
  have "set (yields ?g) =
        {f. within_ranges atomRanges f \<and> total_atoms f \<noteq> 0 \<and> total_atoms f \<le> maxTotalAtoms \<and>
            mass_in M minMass maxMass f}"
    using y by (rule conjunct2)
  then have s: "set (yields ?g) =
        {f. within_ranges atomRanges f \<and> total_atoms f \<noteq> 0 \<and> total_atoms f \<le> maxTotalAtoms \<and>
           (\<exists>m. calculate_mass f M = Inr m \<and> minMass \<le> m \<and> m \<le> maxMass)}"
    using m by simp
  have d: "distinct (yields ?g)" using y by (rule conjunct1)
  have p: "(\<forall>(e, lo, hi) \<in> set atomRanges. 0 \<le> lo) \<longrightarrow> (\<forall>f \<in> set (yields ?g). 0 < total_atoms f)"
  proof (intro impI ballI)
    fix f
    assume n: "\<forall>(e, lo, hi) \<in> set atomRanges. 0 \<le> lo" and f: "f \<in> set (yields ?g)"
    from yields_generate_formulas_sound [OF f]
    have w: "within_ranges atomRanges f" and z: "total_atoms f \<noteq> 0" by simp_all
    from total_atoms_nonneg [OF within_ranges_nonneg [OF w n]] z
    show "0 < total_atoms f" by linarith
  qed
  have r: "(\<forall>e \<in> set (map fst atomRanges). M e \<noteq> None) \<longrightarrow> raised ?g = None"
    using generate_formulas_covered(1) [of atomRanges M minMass maxMass maxTotalAtoms] by blast
  from d s p r show ?thesis by blast
qed

text \<open>
  Claim C3, amended, at a concrete input with the window [12, 14]: C (mass 12) and CH2
  (mass 14), on the two bounds, are yielded; H2 (mass 2) is not; no range starts below 0 and
  C has one atom; the mass table is complete and the enumerator ends without raising.
\<close>

theorem generate_formulas_exact_witness:
  "raised (generate_formulas [(''C'', (0, 1)), (''H'', (0, 2))] [''C'' \<mapsto> 12, ''H'' \<mapsto> 1] 12 14 150) = None \<and>
   [(''C'', 1), (''H'', 0)] \<in>
     set (yields (generate_formulas [(''C'', (0, 1)), (''H'', (0, 2))] [''C'' \<mapsto> 12, ''H'' \<mapsto> 1] 12 14 150)) \<and>
   0 < total_atoms [(''C'', 1), (''H'', 0)] \<and>
   [(''C'', 1), (''H'', 2)] \<in>
     set (yields (generate_formulas [(''C'', (0, 1)), (''H'', (0, 2))] [''C'' \<mapsto> 12, ''H'' \<mapsto> 1] 12 14 150)) \<and>
   [(''C'', 0), (''H'', 2)] \<notin>
     set (yields (generate_formulas [(''C'', (0, 1)), (''H'', (0, 2))] [''C'' \<mapsto> 12, ''H'' \<mapsto> 1] 12 14 150))"
proof -
  have h1: "\<forall>(e, lo, hi) \<in> set [(''C'', (0::int, 1::int)), (''H'', (0, 2))]. 0 \<le> lo"
    by simp
  have h2: "\<forall>e \<in> set (map fst [(''C'', (0::int, 1::int)), (''H'', (0, 2))]).
              [''C'' \<mapsto> 12::real, ''H'' \<mapsto> 1] e \<noteq> None"
    by simp
  note t = generate_formulas_exact
             [of "[(''C'', (0, 1)), (''H'', (0, 2))]" "[''C'' \<mapsto> 12, ''H'' \<mapsto> 1]" 12 14 150]
  from t have eq:
    "set (yields (generate_formulas [(''C'', (0, 1)), (''H'', (0, 2))] [''C'' \<mapsto> 12, ''H'' \<mapsto> 1] 12 14 150)) =
       {f. within_ranges [(''C'', (0, 1)), (''H'', (0, 2))] f \<and> total_atoms f \<noteq> 0 \<and> total_atoms f \<le> 150 \<and>
           (\<exists>m. calculate_mass f [''C'' \<mapsto> 12, ''H'' \<mapsto> 1] = Inr m \<and> 12 \<le> m \<and> m \<le> 14)}"
    by (rule conjunct1 [OF conjunct2])
  from t h1 have pos:
    "\<forall>f \<in> set (yields (generate_formulas [(''C'', (0, 1)), (''H'', (0, 2))] [''C'' \<mapsto> 12, ''H'' \<mapsto> 1] 12 14 150)).
       0 < total_atoms f"
    by blast
  from t h2 have r:
    "raised (generate_formulas [(''C'', (0, 1)), (''H'', (0, 2))] [''C'' \<mapsto> 12, ''H'' \<mapsto> 1] 12 14 150) = None"
    by blast
  have a: "within_ranges [(''C'', (0, 1)), (''H'', (0, 2))] [(''C'', 1), (''H'', 0)]"
    "within_ranges [(''C'', (0, 1)), (''H'', (0, 2))] [(''C'', 1), (''H'', 2)]"
    by (simp_all add: within_ranges_def)
  have b: "total_atoms [(''C'', 1), (''H'', 0)] = 1" "total_atoms [(''C'', 1), (''H'', 2)] = 3"
    by (simp_all add: total_atoms_def)
  have c: "calculate_mass [(''C'', 1), (''H'', 0)] [''C'' \<mapsto> 12, ''H'' \<mapsto> 1] = Inr 12"
    "calculate_mass [(''C'', 1), (''H'', 2)] [''C'' \<mapsto> 12, ''H'' \<mapsto> 1] = Inr 14"
    "calculate_mass [(''C'', 0), (''H'', 2)] [''C'' \<mapsto> 12, ''H'' \<mapsto> 1] = Inr 2"
    by (simp_all add: calculate_mass_def)
  have m1: "[(''C'', 1), (''H'', 0)] \<in>
     set (yields (generate_formulas [(''C'', (0, 1)), (''H'', (0, 2))] [''C'' \<mapsto> 12, ''H'' \<mapsto> 1] 12 14 150))"
    unfolding eq using a(1) b(1) c(1) by simp
  from pos m1 have p1: "0 < total_atoms [(''C'', 1), (''H'', 0)]" by (rule bspec)
  have m2: "[(''C'', 1), (''H'', 2)] \<in>
     set (yields (generate_formulas [(''C'', (0, 1)), (''H'', (0, 2))] [''C'' \<mapsto> 12, ''H'' \<mapsto> 1] 12 14 150))"
    unfolding eq using a(2) b(2) c(2) by simp
  have m3: "[(''C'', 0), (''H'', 2)] \<notin>
     set (yields (generate_formulas [(''C'', (0, 1)), (''H'', (0, 2))] [''C'' \<mapsto> 12, ''H'' \<mapsto> 1] 12 14 150))"
    unfolding eq using c(3) by simp
  from r m1 p1 m2 m3 show ?thesis by blast
qed



text \<open>
  Claim C6. \<open>find_molecular_formulas\<close> derives its mass window as
  \<open>exactMass = targetMass - ionization\<close>, \<open>minMass = exactMass - (ppmTolerance/1e6) * exactMass\<close>,
  \<open>maxMass = exactMass + (ppmTolerance/1e6) * exactMass\<close>, the tolerance being relative to the
  de-ionized mass and not to \<open>targetMass\<close>: its outcome is that of the search driven with
  these two bounds, and when it returns, the returned formulas are exactly the formulas of the
  ranges, of a non-zero total atom count of at most 150 and of an accepted unsaturation, whose
  mass lies in this window; each returned candidate carries that mass, \<open>m/z = mass + ionization\<close>
  and the deviation from \<open>exactMass\<close>.
\<close>

theorem mass_window_from_exact_mass:
  "snd (find_molecular_formulas targetMass ppmTolerance atomRanges M ionization unsaturationRange) =
     (case search_loop M (targetMass - ionization) ionization unsaturationRange []
             (generate_formulas atomRanges M (fst (mass_window targetMass ppmTolerance ionization))
                (snd (mass_window targetMass ppmTolerance ionization)) 150) of
        Inl e \<Rightarrow> Inl e
      | Inr possible_formulas \<Rightarrow> Inr (sort_key (\<lambda>x. \<bar>deviation x\<bar>) possible_formulas)) \<and>
   (\<forall>result. snd (find_molecular_formulas targetMass ppmTolerance atomRanges M ionization
                    unsaturationRange) = Inr result \<longrightarrow>
      set (map formula result) =
        {f. within_ranges atomRanges f \<and> total_atoms f \<noteq> 0 \<and> total_atoms f \<le> 150 \<and>
            (\<exists>m. calculate_mass f M = Inr m \<and>
                 fst (mass_window targetMass ppmTolerance ionization) \<le> m \<and>
                 m \<le> snd (mass_window targetMass ppmTolerance ionization)) \<and>
            fst unsaturationRange \<le> calculate_unsaturation f \<and>
            calculate_unsaturation f \<le> snd unsaturationRange} \<and>
      (\<forall>r \<in> set result.
         calculate_mass (formula r) M = Inr (mass r) \<and>
         fst (mass_window targetMass ppmTolerance ionization) \<le> mass r \<and>
         mass r \<le> snd (mass_window targetMass ppmTolerance ionization) \<and>
         m_z r = mass r + ionization \<and>
         deviation r = ((targetMass - ionization - mass r) / mass r) * 1000000))"
proof (intro conjI allI impI)
  show "snd (find_molecular_formulas targetMass ppmTolerance atomRanges M ionization unsaturationRange) =
     (case search_loop M (targetMass - ionization) ionization unsaturationRange []
             (generate_formulas atomRanges M (fst (mass_window targetMass ppmTolerance ionization))
                (snd (mass_window targetMass ppmTolerance ionization)) 150) of
        Inl e \<Rightarrow> Inl e
      | Inr possible_formulas \<Rightarrow> Inr (sort_key (\<lambda>x. \<bar>deviation x\<bar>) possible_formulas))"
    unfolding snd_find_molecular_formulas collect_formulas_window ..
next
  fix result
  assume res: "snd (find_molecular_formulas targetMass ppmTolerance atomRanges M ionization
                    unsaturationRange) = Inr result"
  let ?lo = "fst (mass_window targetMass ppmTolerance ionization)"
  let ?hi = "snd (mass_window targetMass ppmTolerance ionization)"
  let ?g = "generate_formulas atomRanges M ?lo ?hi 150"
  from res obtain pf where
    pf: "collect_formulas targetMass ppmTolerance atomRanges M ionization unsaturationRange = Inr pf"
    and rs: "result = sort_key (\<lambda>x. \<bar>deviation x\<bar>) pf"
    by (rule find_molecular_formulas_InrD)
  have m: "mass_in M ?lo ?hi f \<longleftrightarrow> (\<exists>m. calculate_mass f M = Inr m \<and> ?lo \<le> m \<and> m \<le> ?hi)" for f
    by (cases "calculate_mass f M") (simp_all add: mass_in_def)
  have "set (map formula result) = formula ` set pf"
    unfolding rs by simp
  also have "\<dots> = set (map formula pf)" by simp
  also have "\<dots> = {f \<in> set (yields ?g). fst unsaturationRange \<le> calculate_unsaturation f \<and>
                       calculate_unsaturation f \<le> snd unsaturationRange}"
    using search_loop_formulas [OF pf [unfolded collect_formulas_window]] by simp
  also have "\<dots> = {f. within_ranges atomRanges f \<and> total_atoms f \<noteq> 0 \<and> total_atoms f \<le> 150 \<and>
            (\<exists>m. calculate_mass f M = Inr m \<and> ?lo \<le> m \<and> m \<le> ?hi) \<and>
            fst unsaturationRange \<le> calculate_unsaturation f \<and>
            calculate_unsaturation f \<le> snd unsaturationRange}"
    using yields_generate_formulas [of atomRanges M ?lo ?hi 150] m by auto
  finally show "set (map formula result) =
        {f. within_ranges atomRanges f \<and> total_atoms f \<noteq> 0 \<and> total_atoms f \<le> 150 \<and>
            (\<exists>m. calculate_mass f M = Inr m \<and> ?lo \<le> m \<and> m \<le> ?hi) \<and>
            fst unsaturationRange \<le> calculate_unsaturation f \<and>
            calculate_unsaturation f \<le> snd unsaturationRange}" .
  show "\<forall>r \<in> set result.
         calculate_mass (formula r) M = Inr (mass r) \<and> ?lo \<le> mass r \<and> mass r \<le> ?hi \<and>
         m_z r = mass r + ionization \<and>
         deviation r = ((targetMass - ionization - mass r) / mass r) * 1000000"
  proof
    fix r
    assume "r \<in> set result"
    with rs have rpf: "r \<in> set pf" by simp
    note s = collect_formulas_sound [OF pf rpf]
    from yields_generate_formulas_sound [OF s(1)] s(2)
    have "?lo \<le> mass r \<and> mass r \<le> ?hi" by (simp add: mass_in_def)
    with s(2,4,5) show "calculate_mass (formula r) M = Inr (mass r) \<and> ?lo \<le> mass r \<and> mass r \<le> ?hi \<and>
         m_z r = mass r + ionization \<and>
         deviation r = ((targetMass - ionization - mass r) / mass r) * 1000000"
      by simp
  qed
qed

text \<open>
  Claim C6, on the search for the measured mass 14 with the ionization adjustment 1 at
  100000 ppm: the window is [11.7, 14.3], around the de-ionized mass 13. C, of mass 12, is
  returned with \<open>m/z = 13\<close>; a tolerance relative to the target mass would start the window at
  12.6 and leave it out.
\<close>

theorem mass_window_from_exact_mass_witness:
  "snd (find_molecular_formulas 14 100000 [(''C'', (0, 1)), (''H'', (0, 2))] [''C'' \<mapsto> 12, ''H'' \<mapsto> 1] 1
          (- 10, 10)) =
     Inr [\<lparr>formula = [(''C'', 1), (''H'', 1)], mass = 13, m_z = 14, deviation = 0, unsaturation = 3 / 2\<rparr>,
          \<lparr>formula = [(''C'', 1), (''H'', 2)], mass = 14, m_z = 15, deviation = - (500000 / 7),
            unsaturation = 1\<rparr>,
          \<lparr>formula = [(''C'', 1), (''H'', 0)], mass = 12, m_z = 13, deviation = 250000 / 3,
            unsaturation = 2\<rparr>] \<and>
   mass_window 14 100000 1 = (117 / 10, 143 / 10) \<and>
   fst (mass_window 14 100000 1) \<le> mass \<lparr>formula = [(''C'', 1), (''H'', 0)], mass = 12, m_z = 13,
       deviation = 250000 / 3, unsaturation = 2\<rparr> \<and>
   mass \<lparr>formula = [(''C'', 1), (''H'', 0)], mass = 12, m_z = 13,
       deviation = 250000 / 3, unsaturation = 2\<rparr> \<le> snd (mass_window 14 100000 1) \<and>
   \<not> (14 - (100000 / 1000000) * 14 \<le> (12::real))"
  using mass_window_from_exact_mass [of 14 100000 "[(''C'', (0, 1)), (''H'', (0, 2))]"
      "[''C'' \<mapsto> 12, ''H'' \<mapsto> 1]" 1 "(- 10, 10)"] example_search_ionized
  by (simp add: mass_window_def)

text \<open>
  Claim C8 says that a mass table positive on the symbols of \<open>atomRanges\<close> keeps the mass of
  every yielded formula above 0. With the range (-1, 1) for C and (0, 12) for H, and the
  masses 12 and 1, the combination of -1 carbon and 12 hydrogen has 11 atoms and the mass 0,
  inside the window [0, 26]; its unsaturation -6 is accepted, and the deviation divides by
  zero.
\<close>

theorem zero_division_counterexample:
  "[''C'' \<mapsto> 12::real, ''H'' \<mapsto> 1] ''C'' = Some 12 \<and> [''C'' \<mapsto> 12::real, ''H'' \<mapsto> 1] ''H'' = Some 1 \<and>
   snd (find_molecular_formulas 13 1000000 [(''C'', (- 1, 1)), (''H'', (0, 12))] [''C'' \<mapsto> 12, ''H'' \<mapsto> 1] 0
          (- 10, 10)) = Inl ZeroDivisionError"
  by (simp add: find_molecular_formulas_def collect_formulas_def generate_formulas_def
        calculate_mass_def calculate_unsaturation_def dict_get_def upto_m1_1 upto_0_12)

text \<open>
  Claim C8, amended. When the mass table gives a positive mass to every symbol of
  \<open>atomRanges\<close> and no range starts below 0, every formula yielded by the enumerator has at
  least one atom and a mass greater than 0; the division by the mass in the deviation never
  divides by zero, and \<open>find_molecular_formulas\<close> returns a list.
\<close>

theorem no_zero_division:
  assumes "\<forall>e \<in> set (map fst atomRanges). \<exists>m. M e = Some m \<and> 0 < m"
    and "\<forall>(e, lo, hi) \<in> set atomRanges. 0 \<le> lo"
  shows "(\<forall>f \<in> set (yields (generate_formulas atomRanges M minMass maxMass maxTotalAtoms)).
            1 \<le> total_atoms f \<and> (\<exists>m. calculate_mass f M = Inr m \<and> 0 < m)) \<and>
         snd (find_molecular_formulas targetMass ppmTolerance atomRanges M ionization unsaturationRange)
           \<noteq> Inl ZeroDivisionError \<and>
         (\<exists>result. snd (find_molecular_formulas targetMass ppmTolerance atomRanges M ionization
                         unsaturationRange) = Inr result)"
proof -
  have cov: "\<forall>e \<in> set (map fst atomRanges). M e \<noteq> None"
    using assms(1) by fastforce
  have pos: "1 \<le> total_atoms f \<and> (\<exists>m. calculate_mass f M = Inr m \<and> 0 < m)"
    if "f \<in> set (yields (generate_formulas atomRanges M lo hi mx))" for f lo hi mx
  proof -
    from yields_generate_formulas_sound [OF that]
    have w: "within_ranges atomRanges f" and n: "total_atoms f \<noteq> 0" by simp_all
    have keys: "fst ` set f = set (map fst atomRanges)"
      using within_ranges_keys [OF w] by (metis set_map)
    have c: "\<forall>(e, c) \<in> set f. 0 \<le> c"
      by (rule within_ranges_nonneg [OF w assms(2)])
    have t: "0 < total_atoms f"
      using total_atoms_nonneg [OF c] n by linarith
    have m: "\<forall>e \<in> fst ` set f. \<exists>m. M e = Some m \<and> 0 < m"
      using assms(1) keys by simp
    have "\<forall>e \<in> fst ` set f. M e \<noteq> None"
      using cov keys by simp
    from calculate_mass_covered [OF this] mass_total_pos [OF c m t] t
    show ?thesis by simp
  qed
  let ?g = "generate_formulas atomRanges M (fst (mass_window targetMass ppmTolerance ionization))
              (snd (mass_window targetMass ppmTolerance ionization)) 150"
  have r: "raised ?g = None"
    by (rule generate_formulas_covered(1) [OF cov])
  have "\<forall>f \<in> set (yields ?g). \<exists>m. calculate_mass f M = Inr m \<and> m \<noteq> 0"
    using pos by fastforce
  from search_loop_returns [OF r this]
  obtain pf where
    "collect_formulas targetMass ppmTolerance atomRanges M ionization unsaturationRange = Inr pf"
    unfolding collect_formulas_window by blast
  then have "snd (find_molecular_formulas targetMass ppmTolerance atomRanges M ionization unsaturationRange)
               = Inr (sort_key (\<lambda>x. \<bar>deviation x\<bar>) pf)"
    by (simp add: snd_find_molecular_formulas)
  then show ?thesis using pos by simp
qed

text \<open>
  Claim C8, amended, at the input of the worked search.
\<close>

theorem no_zero_division_witness:
  "snd (find_molecular_formulas 13 100000 [(''C'', (0, 1)), (''H'', (0, 2))] [''C'' \<mapsto> 12, ''H'' \<mapsto> 1] 0
          (- 10, 10)) \<noteq> Inl ZeroDivisionError"
proof -
  have h1: "\<forall>e \<in> set (map fst [(''C'', (0::int, 1::int)), (''H'', (0, 2))]).
              \<exists>m. [''C'' \<mapsto> 12::real, ''H'' \<mapsto> 1] e = Some m \<and> 0 < m"
    by simp
  have h2: "\<forall>(e, lo, hi) \<in> set [(''C'', (0::int, 1::int)), (''H'', (0, 2))]. 0 \<le> lo"
    by simp
  from no_zero_division [OF h1 h2, of 0 0 0 13 100000 0 "(- 10, 10)"]
  show ?thesis by (rule conjunct1 [OF conjunct2])
qed

text \<open>
  Claim C10. Every candidate returned by \<open>find_molecular_formulas\<close> has a formula with
  exactly the keys of \<open>atomRanges\<close> (in the same order, zero counts included), and each count
  lies within the inclusive bounds configured for its element.
\<close>

theorem result_formulas_within_ranges:
  assumes "snd (find_molecular_formulas targetMass ppmTolerance atomRanges M ionization unsaturationRange)
             = Inr result"
    and "r \<in> set result"
  shows "set (map fst (formula r)) = set (map fst atomRanges) \<and>
         map fst (formula r) = map fst atomRanges \<and>
         within_ranges atomRanges (formula r)"
proof -
  from assms(1) obtain pf where
    pf: "collect_formulas targetMass ppmTolerance atomRanges M ionization unsaturationRange = Inr pf"
    and rs: "result = sort_key (\<lambda>x. \<bar>deviation x\<bar>) pf"
    by (rule find_molecular_formulas_InrD)
  from assms(2) rs have rpf: "r \<in> set pf" by simp
  from yields_generate_formulas_sound [OF collect_formulas_sound(1) [OF pf rpf]]
  have w: "within_ranges atomRanges (formula r)" by simp
  from within_ranges_keys [OF w] w show ?thesis by simp
qed

text \<open>
  Claim C10, on the worked search, for the candidate C, whose H count is 0.
\<close>

theorem result_formulas_within_ranges_witness:
  "map fst (formula \<lparr>formula = [(''C'', 1), (''H'', 0)], mass = 12, m_z = 12, deviation = 250000 / 3,
            unsaturation = 2\<rparr>) = map fst [(''C'', (0::int, 1::int)), (''H'', (0, 2))] \<and>
   within_ranges [(''C'', (0, 1)), (''H'', (0, 2))]
     (formula \<lparr>formula = [(''C'', 1), (''H'', 0)], mass = 12, m_z = 12, deviation = 250000 / 3,
            unsaturation = 2\<rparr>)"
proof -
  have h: "\<lparr>formula = [(''C'', 1), (''H'', 0)], mass = 12, m_z = 12, deviation = 250000 / 3,
            unsaturation = 2\<rparr> \<in> set
         [\<lparr>formula = [(''C'', 1), (''H'', 1)], mass = 13, m_z = 13, deviation = 0, unsaturation = 3 / 2\<rparr>,
          \<lparr>formula = [(''C'', 1), (''H'', 2)], mass = 14, m_z = 14, deviation = - (500000 / 7),
            unsaturation = 1\<rparr>,
          \<lparr>formula = [(''C'', 1), (''H'', 0)], mass = 12, m_z = 12, deviation = 250000 / 3,
            unsaturation = 2\<rparr>]"
    by simp
  from result_formulas_within_ranges [OF example_search h]
  show ?thesis by (rule conjunct2)
qed

end
